theory Spec2Isabelle
  imports Main
begin

section \<open>Build version information (package version)\<close>

text \<open>
  A Go string is a sequence of bytes; it is modelled as a \<open>string\<close>, a list of
  8-bit characters. The zero value of a Go string is the empty list.
\<close>

subsection \<open>The data model\<close>

text \<open>The struct \<open>BuildInfo\<close>: six string fields.\<close>

record BuildInfo =
  Version :: string
  GitRevision :: string
  GolangVersion :: string
  BuildStatus :: string
  GitTag :: string
  Vendor :: string

text \<open>The composite literal \<open>BuildInfo{}\<close>: every field has its zero value.\<close>

definition zeroBuildInfo :: BuildInfo where
  "zeroBuildInfo = \<lparr>Version = [], GitRevision = [], GolangVersion = [],
     BuildStatus = [], GitTag = [], Vendor = []\<rparr>"

text \<open>A Go \<open>error\<close> carries its message; \<open>nil\<close> is \<open>None\<close>.\<close>

type_synonym error = string

subsection \<open>The functions of package strings that the parser calls\<close>

text \<open>
  Both call sites pass a separator of one byte (a newline, a colon), so the
  separator is a character here. \<open>Index\<close> is the position of the first
  occurrence, or \<open>-1\<close>; \<open>Count\<close> the number of occurrences.
\<close>

fun Index :: "string \<Rightarrow> char \<Rightarrow> int" where
  "Index [] c = - 1"
| "Index (x # xs) c =
     (if x = c then 0
      else (let m = Index xs c in if m < 0 then - 1 else m + 1))"

definition Count :: "string \<Rightarrow> char \<Rightarrow> nat" where
  "Count s c = length (filter (\<lambda>x. x = c) s)"

text \<open>
  The loop of \<open>genSplit\<close>: at most \<open>k\<close> more cuts, each at the first
  separator of what is left; the rest of the string is the last piece.
\<close>

fun splitLoop :: "string \<Rightarrow> char \<Rightarrow> nat \<Rightarrow> string list" where
  "splitLoop s c 0 = [s]"
| "splitLoop s c (Suc k) =
     (let m = Index s c in
      if m < 0 then [s]
      else take (nat m) s # splitLoop (drop (nat m + 1) s) c k)"

text \<open>
  \<open>genSplit\<close> returns \<open>nil\<close> (the empty list here; no other call returns a
  slice of length zero) when \<open>n = 0\<close>, every piece when \<open>n < 0\<close>, and at
  most \<open>n\<close> pieces otherwise.
\<close>

definition genSplit :: "string \<Rightarrow> char \<Rightarrow> int \<Rightarrow> string list" where
  "genSplit s c n =
     (if n = 0 then []
      else (let n1 = (if n < 0 then int (Count s c) + 1 else n);
                n2 = (if n1 > int (length s) + 1 then int (length s) + 1 else n1)
            in splitLoop s c (nat (n2 - 1))))"

definition Split :: "string \<Rightarrow> char \<Rightarrow> string list" where
  "Split s c = genSplit s c (- 1)"

definition SplitN :: "string \<Rightarrow> char \<Rightarrow> int \<Rightarrow> string list" where
  "SplitN s c n = genSplit s c n"

text \<open>
  \<open>TrimSpace\<close> removes the leading and the trailing white space, as Unicode
  defines it, of a UTF-8 string. The white-space runes are the six ASCII
  ones, U+0085, U+00A0, U+1680, U+2000 to U+200A, U+2028, U+2029, U+202F,
  U+205F and U+3000. A rune is decoded from the front of a string, or from
  its back, as one of these exactly when the string starts, or ends, with
  the bytes of its UTF-8 encoding: an invalid or over-long sequence decodes
  to U+FFFD, which is no white space. So trimming removes encodings of this
  list from either end for as long as there is one.
\<close>

definition asciiSpace :: "char list" where
  "asciiSpace = [CHR 0x09, CHR 0x0A, CHR 0x0B, CHR 0x0C, CHR 0x0D, CHR 0x20]"

definition spaceEncodings :: "string list" where
  "spaceEncodings = map (\<lambda>c. [c]) asciiSpace @
     [[CHR 0xC2, CHR 0x85], [CHR 0xC2, CHR 0xA0], [CHR 0xE1, CHR 0x9A, CHR 0x80]] @
     map (\<lambda>c. [CHR 0xE2, CHR 0x80, c])
       [CHR 0x80, CHR 0x81, CHR 0x82, CHR 0x83, CHR 0x84, CHR 0x85, CHR 0x86,
        CHR 0x87, CHR 0x88, CHR 0x89, CHR 0x8A, CHR 0xA8, CHR 0xA9, CHR 0xAF] @
     [[CHR 0xE2, CHR 0x81, CHR 0x9F], [CHR 0xE3, CHR 0x80, CHR 0x80]]"

text \<open>
  The width in bytes of the white-space rune a string starts with, and of the
  one it ends with; \<open>0\<close> when there is none.
\<close>

definition leadingSpace :: "string \<Rightarrow> nat" where
  "leadingSpace s =
     (case find (\<lambda>e. take (length e) s = e) spaceEncodings of
        None \<Rightarrow> 0 | Some e \<Rightarrow> length e)"

definition trailingSpace :: "string \<Rightarrow> nat" where
  "trailingSpace s =
     (case find (\<lambda>e. length e \<le> length s \<and> drop (length s - length e) s = e)
             spaceEncodings of
        None \<Rightarrow> 0 | Some e \<Rightarrow> length e)"

function TrimLeft :: "string \<Rightarrow> string" where
  "TrimLeft s = (let n = leadingSpace s in if n = 0 then s else TrimLeft (drop n s))"
  by pat_completeness auto
termination
proof (relation "measure length")
  show "wf (measure length)" by simp
next
  fix s :: string and n
  assume n: "n = leadingSpace s" "n \<noteq> 0"
  have "leadingSpace s \<le> length s"
  proof (cases "find (\<lambda>e. take (length e) s = e) spaceEncodings")
    case None
    then show ?thesis by (simp add: leadingSpace_def)
  next
    case (Some e)
    then have "take (length e) s = e"
      by (auto simp: find_Some_iff)
    then have "length (take (length e) s) = length e"
      by simp
    then have "length e \<le> length s"
      by simp
    with Some show ?thesis by (simp add: leadingSpace_def)
  qed
  with n show "(drop n s, s) \<in> measure length"
    by auto
qed

function TrimRight :: "string \<Rightarrow> string" where
  "TrimRight s =
     (let n = trailingSpace s in if n = 0 then s else TrimRight (take (length s - n) s))"
  by pat_completeness auto
termination
proof (relation "measure length")
  show "wf (measure length)" by simp
next
  fix s :: string and n
  assume n: "n = trailingSpace s" "n \<noteq> 0"
  have "trailingSpace s \<le> length s"
    by (auto simp: trailingSpace_def find_Some_iff split: option.splits)
  with n show "(take (length s - n) s, s) \<in> measure length"
    by auto
qed

declare TrimLeft.simps [simp del] TrimRight.simps [simp del]

definition TrimSpace :: "string \<Rightarrow> string" where
  "TrimSpace s = TrimRight (TrimLeft s)"

subsection \<open>Formatting\<close>

text \<open>
  \<open>fmt.Sprintf\<close> for operands that are strings, with the verbs the package
  uses without flags: \<open>%v\<close> and \<open>%s\<close> print the operand as it is, \<open>%%\<close>
  prints a percent sign. A verb with no operand left prints
  \<open>%!v(MISSING)\<close>, a percent sign that ends the format \<open>%!(NOVERB)\<close>, any
  other verb \<open>%!c(string=...)\<close>, and operands left over at the end of the
  format are listed as \<open>%!(EXTRA string=..., string=...)\<close>. Flags, widths
  and operand indexes are not part of this model, so \<open>LongForm\<close>, whose
  format is \<open>%#v\<close>, is not modelled.
\<close>

fun extraOperands :: "string list \<Rightarrow> string" where
  "extraOperands [] = []"
| "extraOperands [a] = ''string='' @ a"
| "extraOperands (a # b # as) = ''string='' @ a @ '', '' @ extraOperands (b # as)"

fun Sprintf :: "string \<Rightarrow> string list \<Rightarrow> string" where
  "Sprintf [] args = (if args = [] then [] else ''%!(EXTRA '' @ extraOperands args @ '')'')"
| "Sprintf [c] args =
     (if c = CHR ''%'' then ''%!(NOVERB)'' @ Sprintf [] args else c # Sprintf [] args)"
| "Sprintf (c # v # fs) args =
     (if c \<noteq> CHR ''%'' then c # Sprintf (v # fs) args
      else if v = CHR ''%'' then CHR ''%'' # Sprintf fs args
      else (case args of
              [] \<Rightarrow> ''%!'' @ [v] @ ''(MISSING)'' @ Sprintf fs []
            | a # as \<Rightarrow>
                (if v = CHR ''v'' \<or> v = CHR ''s'' then a @ Sprintf fs as
                 else ''%!'' @ [v] @ ''(string='' @ a @ '')'' @ Sprintf fs as)))"

definition Errorf :: "string \<Rightarrow> string list \<Rightarrow> error" where
  "Errorf f args = Sprintf f args"

subsection \<open>NewBuildInfoFromOldString\<close>

definition nl :: char where
  "nl = CHR 0x0A"

text \<open>
  The loop over the lines, with the record built so far. A return inside the
  loop is the result of the whole function.
\<close>

fun parseLoop :: "string list \<Rightarrow> BuildInfo \<Rightarrow> BuildInfo \<times> error option" where
  "parseLoop [] res = (res, None)"
| "parseLoop (line # lines) res =
     (if TrimSpace line = [] then parseLoop lines res
      else (let fields = SplitN line (CHR '':'') 2 in
        if fields \<noteq> [] then
          (if length fields \<noteq> 2 then
             (zeroBuildInfo,
              Some (Errorf ''invalid BuildInfo input, field '%s' is not valid'' [fields ! 0]))
           else (let val = TrimSpace (fields ! 1) in
             if fields ! 0 = ''Version'' then parseLoop lines (res\<lparr>Version := val\<rparr>)
             else if fields ! 0 = ''GitRevision'' then parseLoop lines (res\<lparr>GitRevision := val\<rparr>)
             else if fields ! 0 = ''GolangVersion'' then parseLoop lines (res\<lparr>GolangVersion := val\<rparr>)
             else if fields ! 0 = ''BuildStatus'' then parseLoop lines (res\<lparr>BuildStatus := val\<rparr>)
             else if fields ! 0 = ''GitTag'' then parseLoop lines (res\<lparr>GitTag := val\<rparr>)
             else parseLoop lines res))
        else parseLoop lines res))"

definition NewBuildInfoFromOldString :: "string \<Rightarrow> BuildInfo \<times> error option" where
  "NewBuildInfoFromOldString oldOutput = parseLoop (Split oldOutput nl) zeroBuildInfo"

subsection \<open>The renderers\<close>

text \<open>The method \<open>String\<close> of \<open>BuildInfo\<close>.\<close>

definition String :: "BuildInfo \<Rightarrow> string" where
  "String b = Sprintf ''%v-%v-%v'' [Version b, GitRevision b, BuildStatus b]"




subsection \<open>The names of the fields in JSON\<close>

text \<open>
  The declaration of the struct gives each field a tag with the key
  \<open>json\<close>. A declared field is its Go name, the value of that key and the
  field itself. The encoder of \<open>encoding/json\<close> names a field by the part of
  the value before the first comma, by the Go name when that part is empty,
  and leaves out a field whose value is a hyphen; it writes the fields in the
  order of the declaration.
\<close>

record fieldDecl =
  goName :: string
  jsonTag :: string
  getter :: "BuildInfo \<Rightarrow> string"

definition BuildInfoFields :: "fieldDecl list" where
  "BuildInfoFields =
     [\<lparr>goName = ''Version'', jsonTag = ''version'', getter = Version\<rparr>,
      \<lparr>goName = ''GitRevision'', jsonTag = ''revision'', getter = GitRevision\<rparr>,
      \<lparr>goName = ''GolangVersion'', jsonTag = ''golang_version'', getter = GolangVersion\<rparr>,
      \<lparr>goName = ''BuildStatus'', jsonTag = ''status'', getter = BuildStatus\<rparr>,
      \<lparr>goName = ''GitTag'', jsonTag = ''tag'', getter = GitTag\<rparr>,
      \<lparr>goName = ''Vendor'', jsonTag = ''vendor'', getter = Vendor\<rparr>]"

definition jsonName :: "fieldDecl \<Rightarrow> string option" where
  "jsonName f =
     (if jsonTag f = ''-'' then None
      else (let name = takeWhile (\<lambda>c. c \<noteq> CHR '','') (jsonTag f) in
            Some (if name = [] then goName f else name)))"

definition jsonObject :: "BuildInfo \<Rightarrow> (string \<times> string) list" where
  "jsonObject b =
     concat (map (\<lambda>f. case jsonName f of None \<Rightarrow> [] | Some n \<Rightarrow> [(n, getter f b)])
               BuildInfoFields)"

subsection \<open>The legacy format as the specification words it\<close>

text \<open>
  A line is cut at its first colon into a key and a raw value. The entries
  of a text are the key and the trimmed value of each of its lines that is
  not blank, in order.
\<close>

definition keyOf :: "string \<Rightarrow> string" where
  "keyOf line = takeWhile (\<lambda>c. c \<noteq> CHR '':'') line"

definition rawValueOf :: "string \<Rightarrow> string" where
  "rawValueOf line = tl (dropWhile (\<lambda>c. c \<noteq> CHR '':'') line)"

definition lineEntries :: "string list \<Rightarrow> (string \<times> string) list" where
  "lineEntries ls =
     map (\<lambda>l. (keyOf l, TrimSpace (rawValueOf l))) (filter (\<lambda>l. TrimSpace l \<noteq> []) ls)"

definition entries :: "string \<Rightarrow> (string \<times> string) list" where
  "entries text = lineEntries (Split text nl)"

text \<open>
  The field dispatch: the five recognized keys, compared for equality; any
  other key changes nothing.
\<close>

definition recognizedKeys :: "string list" where
  "recognizedKeys = [''Version'', ''GitRevision'', ''GolangVersion'', ''BuildStatus'', ''GitTag'']"

definition assignField :: "string \<Rightarrow> string \<Rightarrow> BuildInfo \<Rightarrow> BuildInfo" where
  "assignField k v res =
     (if k = ''Version'' then res\<lparr>Version := v\<rparr>
      else if k = ''GitRevision'' then res\<lparr>GitRevision := v\<rparr>
      else if k = ''GolangVersion'' then res\<lparr>GolangVersion := v\<rparr>
      else if k = ''BuildStatus'' then res\<lparr>BuildStatus := v\<rparr>
      else if k = ''GitTag'' then res\<lparr>GitTag := v\<rparr>
      else res)"

text \<open>
  The value of a key is that of its last entry, and the empty string when it
  has none. The record of a list of entries has the value of each recognized
  key in the field of that key, and an empty vendor.
\<close>

definition lastValue :: "string \<Rightarrow> (string \<times> string) list \<Rightarrow> string" where
  "lastValue k es = (case map_of (rev es) k of None \<Rightarrow> [] | Some v \<Rightarrow> v)"

definition legacyRecord :: "(string \<times> string) list \<Rightarrow> BuildInfo" where
  "legacyRecord es =
     \<lparr>Version = lastValue ''Version'' es,
      GitRevision = lastValue ''GitRevision'' es,
      GolangVersion = lastValue ''GolangVersion'' es,
      BuildStatus = lastValue ''BuildStatus'' es,
      GitTag = lastValue ''GitTag'' es,
      Vendor = []\<rparr>"

text \<open>The message of the error for a line without a colon.\<close>

definition invalidField :: "string \<Rightarrow> error" where
  "invalidField seg =
     ''invalid BuildInfo input, field '' @ [CHR 0x27] @ seg @ [CHR 0x27] @ '' is not valid''"

text \<open>
  The legacy text of a record: one line \<open>Key: value\<close> for each of the five
  recognized keys, each ended by a newline. \<open>Join\<close> puts the separator
  between the pieces.
\<close>

definition renderLegacy :: "BuildInfo \<Rightarrow> string" where
  "renderLegacy b =
     ''Version: '' @ Version b @ [nl] @
     ''GitRevision: '' @ GitRevision b @ [nl] @
     ''GolangVersion: '' @ GolangVersion b @ [nl] @
     ''BuildStatus: '' @ BuildStatus b @ [nl] @
     ''GitTag: '' @ GitTag b @ [nl]"

fun Join :: "string list \<Rightarrow> char \<Rightarrow> string" where
  "Join [] c = []"
| "Join [s] c = s"
| "Join (s # t # ss) c = s @ c # Join (t # ss) c"

section \<open>Facts about the functions on strings\<close>

subsection \<open>Index, SplitN and Split\<close>

lemma Index_neg: "Index s c < 0 \<longleftrightarrow> c \<notin> set s"
  by (induction s) (auto simp: Let_def)

lemma Index_first: "c \<in> set s \<Longrightarrow> Index s c = int (length (takeWhile (\<lambda>x. x \<noteq> c) s))"
  by (induction s) (auto simp: Let_def Index_neg)

lemma take_Index: "c \<in> set s \<Longrightarrow> take (nat (Index s c)) s = takeWhile (\<lambda>x. x \<noteq> c) s"
  by (simp add: Index_first takeWhile_eq_take [symmetric])

lemma drop_Index: "c \<in> set s \<Longrightarrow> drop (nat (Index s c) + 1) s = tl (dropWhile (\<lambda>x. x \<noteq> c) s)"
  by (simp add: Index_first dropWhile_eq_drop drop_Suc tl_drop)

lemma SplitN_sep:
  "c \<in> set s \<Longrightarrow> SplitN s c 2 = [takeWhile (\<lambda>x. x \<noteq> c) s, tl (dropWhile (\<lambda>x. x \<noteq> c) s)]"
proof -
  assume c: "c \<in> set s"
  then have "s \<noteq> []" by auto
  then have "length s \<noteq> 0" by simp
  then have n: "nat ((if 2 > int (length s) + 1 then int (length s) + 1 else 2) - 1) = Suc 0"
    by auto
  have "SplitN s c 2 = splitLoop s c (Suc 0)"
    unfolding SplitN_def genSplit_def Let_def using n by simp
  also have "\<dots> = [takeWhile (\<lambda>x. x \<noteq> c) s, tl (dropWhile (\<lambda>x. x \<noteq> c) s)]"
    using c by (simp add: Let_def Index_neg take_Index drop_Index del: One_nat_def)
  finally show ?thesis .
qed

lemma splitLoop_nosep: "c \<notin> set s \<Longrightarrow> splitLoop s c k = [s]"
  by (cases k) (simp_all add: Let_def Index_neg)

lemma SplitN_nosep: "c \<notin> set s \<Longrightarrow> SplitN s c 2 = [s]"
  by (simp add: SplitN_def genSplit_def Let_def splitLoop_nosep)

lemma Count_le: "Count s c \<le> length s"
  by (simp add: Count_def)

lemma Split_loop: "Split s c = splitLoop s c (Count s c)"
  using Count_le [of s c] by (simp add: Split_def genSplit_def Let_def)

lemma Split_nosep: "c \<notin> set s \<Longrightarrow> Split s c = [s]"
  by (simp add: Split_loop splitLoop_nosep)

lemma Split_sep: "c \<notin> set a \<Longrightarrow> Split (a @ c # r) c = a # Split r c"
proof -
  assume a: "c \<notin> set a"
  then have cnt: "Count (a @ c # r) c = Suc (Count r c)"
    by (auto simp: Count_def filter_empty_conv)
  have "takeWhile (\<lambda>x. x \<noteq> c) (a @ c # r) = a @ takeWhile (\<lambda>x. x \<noteq> c) (c # r)"
    using a by (intro takeWhile_append2) auto
  then have tw: "takeWhile (\<lambda>x. x \<noteq> c) (a @ c # r) = a"
    by simp
  have "dropWhile (\<lambda>x. x \<noteq> c) (a @ c # r) = dropWhile (\<lambda>x. x \<noteq> c) (c # r)"
    using a by (intro dropWhile_append2) auto
  then have dw: "dropWhile (\<lambda>x. x \<noteq> c) (a @ c # r) = c # r"
    by simp
  define s where "s = a @ c # r"
  have mem: "c \<in> set s" by (simp add: s_def)
  have "splitLoop s c (Suc (Count r c)) =
      take (nat (Index s c)) s # splitLoop (drop (nat (Index s c) + 1) s) c (Count r c)"
    using mem by (simp add: Let_def Index_neg del: One_nat_def)
  also have "take (nat (Index s c)) s = a"
    using take_Index [OF mem] tw by (simp add: s_def)
  also have "drop (nat (Index s c) + 1) s = r"
    using drop_Index [OF mem] dw by (simp add: s_def)
  finally show ?thesis
    by (simp add: Split_loop cnt s_def)
qed

lemma Split_Join:
  "ls \<noteq> [] \<Longrightarrow> \<forall>l \<in> set ls. c \<notin> set l \<Longrightarrow> Split (Join ls c) c = ls"
proof (induction ls c rule: Join.induct)
  case (1 c)
  then show ?case by simp
next
  case (2 s c)
  then show ?case by (simp add: Split_nosep)
next
  case (3 s t ss c)
  then show ?case by (simp add: Split_sep)
qed

subsection \<open>TrimSpace\<close>

text \<open>A string that trims to nothing is made of the bytes of white-space runes only.\<close>

lemma leadingSpace_enc: "leadingSpace s \<noteq> 0 \<Longrightarrow> take (leadingSpace s) s \<in> set spaceEncodings"
proof (cases "find (\<lambda>e. take (length e) s = e) spaceEncodings")
  case None
  assume "leadingSpace s \<noteq> 0"
  with None show ?thesis by (simp add: leadingSpace_def)
next
  case (Some e)
  then have "take (length e) s = e \<and> e \<in> set spaceEncodings"
    by (auto simp: find_Some_iff)
  with Some show ?thesis by (simp add: leadingSpace_def)
qed

lemma trailingSpace_enc:
  "trailingSpace s \<noteq> 0 \<Longrightarrow> drop (length s - trailingSpace s) s \<in> set spaceEncodings"
proof (cases "find (\<lambda>e. length e \<le> length s \<and> drop (length s - length e) s = e) spaceEncodings")
  case None
  assume "trailingSpace s \<noteq> 0"
  with None show ?thesis by (simp add: trailingSpace_def)
next
  case (Some e)
  then have "drop (length s - length e) s = e \<and> e \<in> set spaceEncodings"
    by (auto simp: find_Some_iff)
  with Some show ?thesis by (simp add: trailingSpace_def)
qed

lemma TrimLeft_bytes: "set s \<subseteq> set (concat spaceEncodings) \<union> set (TrimLeft s)"
proof (induction s rule: TrimLeft.induct)
  case (1 s)
  show ?case
  proof (cases "leadingSpace s = 0")
    case True
    then show ?thesis by (simp add: TrimLeft.simps [of s])
  next
    case False
    then have "set (take (leadingSpace s) s) \<subseteq> set (concat spaceEncodings)"
      using leadingSpace_enc [of s] by auto
    moreover have "set (drop (leadingSpace s) s) \<subseteq> set (concat spaceEncodings) \<union> set (TrimLeft s)"
      using 1 [OF refl False] False by (simp add: TrimLeft.simps [of s])
    moreover have "set s = set (take (leadingSpace s) s) \<union> set (drop (leadingSpace s) s)"
      by (metis append_take_drop_id set_append)
    ultimately show ?thesis by blast
  qed
qed

lemma TrimRight_bytes: "set s \<subseteq> set (concat spaceEncodings) \<union> set (TrimRight s)"
proof (induction s rule: TrimRight.induct)
  case (1 s)
  show ?case
  proof (cases "trailingSpace s = 0")
    case True
    then show ?thesis by (simp add: TrimRight.simps [of s])
  next
    case False
    let ?k = "length s - trailingSpace s"
    have "set (drop ?k s) \<subseteq> set (concat spaceEncodings)"
      using trailingSpace_enc [OF False] by auto
    moreover have "set (take ?k s) \<subseteq> set (concat spaceEncodings) \<union> set (TrimRight s)"
      using 1 [OF refl False] False by (simp add: TrimRight.simps [of s])
    moreover have "set s = set (take ?k s) \<union> set (drop ?k s)"
      by (metis append_take_drop_id set_append)
    ultimately show ?thesis by blast
  qed
qed

lemma TrimSpace_blank_bytes: "TrimSpace s = [] \<Longrightarrow> set s \<subseteq> set (concat spaceEncodings)"
  using TrimLeft_bytes [of s] TrimRight_bytes [of "TrimLeft s"]
  by (auto simp: TrimSpace_def)

lemma colon_not_space: "CHR '':'' \<notin> set (concat spaceEncodings)"
  by (simp add: spaceEncodings_def asciiSpace_def)

lemma blank_no_colon: "TrimSpace s = [] \<Longrightarrow> CHR '':'' \<notin> set s"
  using TrimSpace_blank_bytes [of s] colon_not_space by auto

lemma TrimSpace_Nil: "TrimSpace [] = []"
  by (simp add: TrimSpace_def TrimLeft.simps [of "[]"] TrimRight.simps [of "[]"]
      leadingSpace_def trailingSpace_def spaceEncodings_def asciiSpace_def)

lemma TrimSpace_space: "TrimSpace (CHR '' '' # v) = TrimSpace v"
proof -
  have "leadingSpace (CHR '' '' # v) = 1"
    by (simp add: leadingSpace_def spaceEncodings_def asciiSpace_def)
  then have "TrimLeft (CHR '' '' # v) = TrimLeft v"
    by (simp add: TrimLeft.simps [of "CHR '' '' # v"])
  then show ?thesis by (simp add: TrimSpace_def)
qed

subsection \<open>Base\<close>



section \<open>One line of the parser\<close>

text \<open>
  A blank line is skipped, a line without a colon ends the parse with the
  error, and a line with a colon goes through the field dispatch.
\<close>

lemma parseLoop_blank: "TrimSpace line = [] \<Longrightarrow> parseLoop (line # lines) res = parseLoop lines res"
  by simp

lemma parseLoop_nocolon:
  "TrimSpace line \<noteq> [] \<Longrightarrow> CHR '':'' \<notin> set line \<Longrightarrow>
   parseLoop (line # lines) res = (zeroBuildInfo, Some (invalidField line))"
  by (simp add: SplitN_nosep Errorf_def invalidField_def)

lemma parseLoop_colon:
  assumes "CHR '':'' \<in> set line"
  shows "parseLoop (line # lines) res =
    parseLoop lines (assignField (keyOf line) (TrimSpace (rawValueOf line)) res)"
proof -
  have "TrimSpace line \<noteq> []"
    using assms blank_no_colon by blast
  then show ?thesis
    using assms by (simp add: SplitN_sep assignField_def keyOf_def rawValueOf_def Let_def)
qed

declare parseLoop.simps(2) [simp del]

lemma keyOf_cut: "CHR '':'' \<notin> set k \<Longrightarrow> keyOf (k @ CHR '':'' # v) = k"
proof -
  assume k: "CHR '':'' \<notin> set k"
  have "takeWhile (\<lambda>c. c \<noteq> CHR '':'') (k @ CHR '':'' # v)
      = k @ takeWhile (\<lambda>c. c \<noteq> CHR '':'') (CHR '':'' # v)"
    using k by (intro takeWhile_append2) auto
  then show ?thesis by (simp add: keyOf_def)
qed

lemma rawValueOf_cut: "CHR '':'' \<notin> set k \<Longrightarrow> rawValueOf (k @ CHR '':'' # v) = v"
proof -
  assume k: "CHR '':'' \<notin> set k"
  have "dropWhile (\<lambda>c. c \<noteq> CHR '':'') (k @ CHR '':'' # v)
      = dropWhile (\<lambda>c. c \<noteq> CHR '':'') (CHR '':'' # v)"
    using k by (intro dropWhile_append2) auto
  then show ?thesis by (simp add: rawValueOf_def)
qed

lemma parseLoop_key_value:
  "CHR '':'' \<notin> set k \<Longrightarrow>
   parseLoop ((k @ CHR '':'' # v) # lines) res = parseLoop lines (assignField k (TrimSpace v) res)"
  by (simp add: parseLoop_colon keyOf_cut rawValueOf_cut)

lemma recognized_trimmed: "k \<in> set recognizedKeys \<Longrightarrow> TrimSpace k = k"
proof -
  have "\<forall>k \<in> set recognizedKeys. TrimSpace k = k"
    by code_simp
  then show "k \<in> set recognizedKeys \<Longrightarrow> TrimSpace k = k" by blast
qed

lemma assignField_unknown: "k \<notin> set recognizedKeys \<Longrightarrow> assignField k v res = res"
  by (simp add: assignField_def recognizedKeys_def)

lemma parseLoop_rendered:
  "parseLoop ((''Version: '' @ v) # lines) res = parseLoop lines (res\<lparr>Version := TrimSpace v\<rparr>)"
  "parseLoop ((''GitRevision: '' @ v) # lines) res = parseLoop lines (res\<lparr>GitRevision := TrimSpace v\<rparr>)"
  "parseLoop ((''GolangVersion: '' @ v) # lines) res = parseLoop lines (res\<lparr>GolangVersion := TrimSpace v\<rparr>)"
  "parseLoop ((''BuildStatus: '' @ v) # lines) res = parseLoop lines (res\<lparr>BuildStatus := TrimSpace v\<rparr>)"
  "parseLoop ((''GitTag: '' @ v) # lines) res = parseLoop lines (res\<lparr>GitTag := TrimSpace v\<rparr>)"
  using parseLoop_key_value [of "''Version''" "CHR '' '' # v" lines res]
    parseLoop_key_value [of "''GitRevision''" "CHR '' '' # v" lines res]
    parseLoop_key_value [of "''GolangVersion''" "CHR '' '' # v" lines res]
    parseLoop_key_value [of "''BuildStatus''" "CHR '' '' # v" lines res]
    parseLoop_key_value [of "''GitTag''" "CHR '' '' # v" lines res]
  by (simp_all add: assignField_def TrimSpace_space)

section \<open>The whole loop\<close>

lemma parseLoop_append:
  "\<forall>l \<in> set pre. TrimSpace l = [] \<or> CHR '':'' \<in> set l \<Longrightarrow>
   parseLoop (pre @ rest) res =
     parseLoop rest (foldl (\<lambda>r e. assignField (fst e) (snd e) r) res (lineEntries pre))"
proof (induction pre arbitrary: res)
  case Nil
  then show ?case by (simp add: lineEntries_def)
next
  case (Cons l pre)
  show ?case
  proof (cases "TrimSpace l = []")
    case True
    then show ?thesis using Cons by (simp add: parseLoop_blank lineEntries_def)
  next
    case False
    then have "CHR '':'' \<in> set l" using Cons.prems by simp
    then show ?thesis using Cons False by (simp add: parseLoop_colon lineEntries_def)
  qed
qed

lemma parseLoop_blanks: "\<forall>l \<in> set ls. TrimSpace l = [] \<Longrightarrow> parseLoop ls res = (res, None)"
  by (induction ls) (simp_all add: parseLoop_blank)

lemma parseLoop_accepted:
  "\<forall>l \<in> set ls. TrimSpace l = [] \<or> CHR '':'' \<in> set l \<Longrightarrow>
   parseLoop ls res = (foldl (\<lambda>r e. assignField (fst e) (snd e) r) res (lineEntries ls), None)"
  using parseLoop_append [of ls "[]" res] by simp

lemma parseLoop_rejected:
  "\<exists>l \<in> set ls. TrimSpace l \<noteq> [] \<and> CHR '':'' \<notin> set l \<Longrightarrow> snd (parseLoop ls res) \<noteq> None"
proof (induction ls arbitrary: res)
  case Nil
  then show ?case by simp
next
  case (Cons l ls)
  show ?case
  proof (cases "TrimSpace l = []")
    case True
    then show ?thesis using Cons by (simp add: parseLoop_blank)
  next
    case False
    show ?thesis
    proof (cases "CHR '':'' \<in> set l")
      case True
      then show ?thesis using Cons by (auto simp: parseLoop_colon)
    next
      case no: False
      then show ?thesis using False by (simp add: parseLoop_nocolon)
    qed
  qed
qed

lemma parseLoop_vendor: "Vendor res = [] \<Longrightarrow> Vendor (fst (parseLoop ls res)) = []"
proof (induction ls arbitrary: res)
  case Nil
  then show ?case by simp
next
  case (Cons l ls)
  show ?case
  proof (cases "TrimSpace l = []")
    case True
    then show ?thesis using Cons by (simp add: parseLoop_blank)
  next
    case False
    show ?thesis
    proof (cases "CHR '':'' \<in> set l")
      case True
      have "Vendor (assignField (keyOf l) (TrimSpace (rawValueOf l)) res) = []"
        using Cons.prems by (simp add: assignField_def)
      then show ?thesis using True Cons.IH by (simp add: parseLoop_colon)
    next
      case no: False
      then show ?thesis using False by (simp add: parseLoop_nocolon zeroBuildInfo_def)
    qed
  qed
qed

lemma fold_assign_fields:
  "Version (foldl (\<lambda>r e. assignField (fst e) (snd e) r) res es) =
     (case map_of (rev es) ''Version'' of None \<Rightarrow> Version res | Some v \<Rightarrow> v)"
  "GitRevision (foldl (\<lambda>r e. assignField (fst e) (snd e) r) res es) =
     (case map_of (rev es) ''GitRevision'' of None \<Rightarrow> GitRevision res | Some v \<Rightarrow> v)"
  "GolangVersion (foldl (\<lambda>r e. assignField (fst e) (snd e) r) res es) =
     (case map_of (rev es) ''GolangVersion'' of None \<Rightarrow> GolangVersion res | Some v \<Rightarrow> v)"
  "BuildStatus (foldl (\<lambda>r e. assignField (fst e) (snd e) r) res es) =
     (case map_of (rev es) ''BuildStatus'' of None \<Rightarrow> BuildStatus res | Some v \<Rightarrow> v)"
  "GitTag (foldl (\<lambda>r e. assignField (fst e) (snd e) r) res es) =
     (case map_of (rev es) ''GitTag'' of None \<Rightarrow> GitTag res | Some v \<Rightarrow> v)"
  "Vendor (foldl (\<lambda>r e. assignField (fst e) (snd e) r) res es) = Vendor res"
  by (induction es rule: rev_induct; simp add: assignField_def)+

lemma fold_assign_zero:
  "foldl (\<lambda>r e. assignField (fst e) (snd e) r) zeroBuildInfo es = legacyRecord es"
  by (rule BuildInfo.equality)
     (simp_all add: fold_assign_fields legacyRecord_def lastValue_def zeroBuildInfo_def
       split: option.split)

lemma parse_accepted:
  "\<forall>l \<in> set (Split oldOutput nl). TrimSpace l = [] \<or> CHR '':'' \<in> set l \<Longrightarrow>
   NewBuildInfoFromOldString oldOutput = (legacyRecord (entries oldOutput), None)"
  by (simp add: NewBuildInfoFromOldString_def parseLoop_accepted fold_assign_zero entries_def)

lemma parse_accepted_iff:
  "snd (NewBuildInfoFromOldString oldOutput) = None \<longleftrightarrow>
   (\<forall>l \<in> set (Split oldOutput nl). TrimSpace l = [] \<or> CHR '':'' \<in> set l)"
proof
  assume ok: "snd (NewBuildInfoFromOldString oldOutput) = None"
  show "\<forall>l \<in> set (Split oldOutput nl). TrimSpace l = [] \<or> CHR '':'' \<in> set l"
  proof (rule ccontr)
    assume "\<not> (\<forall>l \<in> set (Split oldOutput nl). TrimSpace l = [] \<or> CHR '':'' \<in> set l)"
    then have "\<exists>l \<in> set (Split oldOutput nl). TrimSpace l \<noteq> [] \<and> CHR '':'' \<notin> set l"
      by blast
    then have "snd (parseLoop (Split oldOutput nl) zeroBuildInfo) \<noteq> None"
      by (rule parseLoop_rejected)
    with ok show False by (simp add: NewBuildInfoFromOldString_def)
  qed
next
  assume "\<forall>l \<in> set (Split oldOutput nl). TrimSpace l = [] \<or> CHR '':'' \<in> set l"
  then show "snd (NewBuildInfoFromOldString oldOutput) = None"
    by (simp add: parse_accepted)
qed

lemma lastValue_absent: "k \<notin> fst ` set es \<Longrightarrow> lastValue k es = []"
proof -
  assume "k \<notin> fst ` set es"
  then have "map_of (rev es) k = None"
    by (simp add: map_of_eq_None_iff)
  then show ?thesis by (simp add: lastValue_def)
qed

section \<open>The claims\<close>

text \<open>
  C1. The first line that is not blank and has no colon ends the parse: the
  result is the zero record together with an error whose message quotes that
  line, whatever the lines before it have set.
\<close>

theorem parse_aborts_on_line_without_colon:
  assumes "Split oldOutput nl = pre @ line # post"
    and "\<forall>l \<in> set pre. TrimSpace l = [] \<or> CHR '':'' \<in> set l"
    and "TrimSpace line \<noteq> []" and "CHR '':'' \<notin> set line"
  shows "NewBuildInfoFromOldString oldOutput = (zeroBuildInfo, Some (invalidField line))"
proof -
  obtain res' where "parseLoop (pre @ line # post) zeroBuildInfo = parseLoop (line # post) res'"
    using parseLoop_append [OF assms(2)] by blast
  then show ?thesis
    using assms(1,3,4) by (simp add: NewBuildInfoFromOldString_def parseLoop_nocolon)
qed

theorem parse_aborts_on_line_without_colon_witness:
  "NewBuildInfoFromOldString (''Version: 1.2.3'' @ [nl] @ ''BadLineNoColon'' @ [nl] @ ''GitTag: t'')
     = (zeroBuildInfo, Some (invalidField ''BadLineNoColon''))
   \<and> invalidField ''BadLineNoColon'' =
       ''invalid BuildInfo input, field '' @ [CHR 0x27] @ ''BadLineNoColon'' @ [CHR 0x27] @ '' is not valid''"
proof -
  have h1: "Split (''Version: 1.2.3'' @ [nl] @ ''BadLineNoColon'' @ [nl] @ ''GitTag: t'') nl
      = [''Version: 1.2.3''] @ ''BadLineNoColon'' # [''GitTag: t'']"
    by code_simp
  have h2: "\<forall>l \<in> set [''Version: 1.2.3'']. TrimSpace l = [] \<or> CHR '':'' \<in> set l"
    by code_simp
  have h3: "TrimSpace ''BadLineNoColon'' \<noteq> []"
    by code_simp
  have h4: "CHR '':'' \<notin> set ''BadLineNoColon''"
    by code_simp
  show ?thesis
    using parse_aborts_on_line_without_colon [OF h1 h2 h3 h4] by (simp add: invalidField_def)
qed

text \<open>
  C2. Over any run of lines from the start of the text that are blank or
  have a colon, the loop builds the record of their entries: for each of the
  five recognized keys the trimmed value of the last line with exactly that
  key, and nothing else, so that a line with any other key leaves no trace
  and raises no error. When the run is the whole text, this record is
  returned with no error. The vendor of the returned record is always empty.
\<close>

theorem parse_fields_last_occurrence_wins:
  assumes "Split oldOutput nl = pre @ rest"
    and "\<forall>l \<in> set pre. TrimSpace l = [] \<or> CHR '':'' \<in> set l"
  shows "NewBuildInfoFromOldString oldOutput = parseLoop rest (legacyRecord (lineEntries pre))
    \<and> (rest = [] \<longrightarrow>
         NewBuildInfoFromOldString oldOutput = (legacyRecord (entries oldOutput), None))
    \<and> Vendor (fst (NewBuildInfoFromOldString oldOutput)) = []"
proof -
  have "NewBuildInfoFromOldString oldOutput = parseLoop rest (legacyRecord (lineEntries pre))"
    using assms by (simp add: NewBuildInfoFromOldString_def parseLoop_append fold_assign_zero)
  moreover have "Vendor (fst (NewBuildInfoFromOldString oldOutput)) = []"
    by (simp add: NewBuildInfoFromOldString_def parseLoop_vendor zeroBuildInfo_def)
  ultimately show ?thesis
    using assms(1) by (auto simp: entries_def)
qed

theorem parse_fields_last_occurrence_wins_witness:
  "NewBuildInfoFromOldString
     (''Unknown: ignored'' @ [nl] @ ''Version: a'' @ [nl] @ ''version: c'' @ [nl] @ ''Version: b'' @ [nl])
   = (zeroBuildInfo\<lparr>Version := ''b''\<rparr>, None)"
proof -
  let ?t = "''Unknown: ignored'' @ [nl] @ ''Version: a'' @ [nl] @ ''version: c'' @ [nl] @ ''Version: b'' @ [nl]"
  let ?ls = "[''Unknown: ignored'', ''Version: a'', ''version: c'', ''Version: b'', []]"
  have h1: "Split ?t nl = ?ls @ []"
    by code_simp
  have h2: "\<forall>l \<in> set ?ls. TrimSpace l = [] \<or> CHR '':'' \<in> set l"
    by code_simp
  have e: "legacyRecord (lineEntries ?ls) = zeroBuildInfo\<lparr>Version := ''b''\<rparr>"
    by code_simp
  show ?thesis
    using parse_fields_last_occurrence_wins [OF h1 h2] e by simp
qed

text \<open>
  C3. The parser starts from the zero record and takes no default from its
  caller, so a field whose key is absent is not \<open>unknown\<close>: it is the empty
  string. The text \<open>GitTag: 1.0\<close> is accepted and leaves the version empty.
\<close>

theorem absent_field_is_not_unknown:
  "snd (NewBuildInfoFromOldString ''GitTag: 1.0'') = None \<and>
   Version (fst (NewBuildInfoFromOldString ''GitTag: 1.0'')) = [] \<and>
   Version (fst (NewBuildInfoFromOldString ''GitTag: 1.0'')) \<noteq> ''unknown''"
  by code_simp

text \<open>
  C3, as amended. In the record of an accepted text, each recognized field
  whose key no line of the text has is the empty string.
\<close>

theorem absent_field_is_empty:
  assumes "snd (NewBuildInfoFromOldString oldOutput) = None"
  shows "(''Version'' \<notin> fst ` set (entries oldOutput) \<longrightarrow>
            Version (fst (NewBuildInfoFromOldString oldOutput)) = []) \<and>
         (''GitRevision'' \<notin> fst ` set (entries oldOutput) \<longrightarrow>
            GitRevision (fst (NewBuildInfoFromOldString oldOutput)) = []) \<and>
         (''GolangVersion'' \<notin> fst ` set (entries oldOutput) \<longrightarrow>
            GolangVersion (fst (NewBuildInfoFromOldString oldOutput)) = []) \<and>
         (''BuildStatus'' \<notin> fst ` set (entries oldOutput) \<longrightarrow>
            BuildStatus (fst (NewBuildInfoFromOldString oldOutput)) = []) \<and>
         (''GitTag'' \<notin> fst ` set (entries oldOutput) \<longrightarrow>
            GitTag (fst (NewBuildInfoFromOldString oldOutput)) = [])"
proof -
  have "NewBuildInfoFromOldString oldOutput = (legacyRecord (entries oldOutput), None)"
    using assms parse_accepted parse_accepted_iff by blast
  then show ?thesis
    by (simp add: legacyRecord_def lastValue_absent)
qed

theorem absent_field_is_empty_witness:
  "GitRevision (fst (NewBuildInfoFromOldString ''Version: 1.2.3'')) = []"
proof -
  have h: "snd (NewBuildInfoFromOldString ''Version: 1.2.3'') = None"
    by code_simp
  have a: "''GitRevision'' \<notin> fst ` set (entries ''Version: 1.2.3'')"
    by code_simp
  show ?thesis
    using absent_field_is_empty [OF h] a by simp
qed

text \<open>
  C4. The compact line is the version, the revision and the build status
  with a hyphen between them, whatever the three values contain.
\<close>

theorem String_layout:
  "String b = Version b @ ''-'' @ GitRevision b @ ''-'' @ BuildStatus b"
  by (simp add: String_def)

text \<open>
  C5. The text is cut at its newlines: parsing the lines joined by newlines
  runs the loop on exactly these lines. A line that trims to nothing is
  skipped. A line is cut at its first colon, so the value may hold colons;
  the value is trimmed and the key is not: a key that trimming would change
  is no recognized key and sets nothing.
\<close>

theorem parse_line_processing:
  "(ls \<noteq> [] \<and> (\<forall>l \<in> set ls. nl \<notin> set l) \<longrightarrow>
      NewBuildInfoFromOldString (Join ls nl) = parseLoop ls zeroBuildInfo)
   \<and> (TrimSpace line = [] \<longrightarrow> parseLoop (line # lines) res = parseLoop lines res)
   \<and> (CHR '':'' \<notin> set k \<longrightarrow>
        parseLoop ((k @ CHR '':'' # v) # lines) res =
          parseLoop lines (assignField k (TrimSpace v) res))
   \<and> (TrimSpace k \<noteq> k \<longrightarrow> assignField k w res = res)"
proof -
  have "TrimSpace k \<noteq> k \<longrightarrow> assignField k w res = res"
    using recognized_trimmed [of k] assignField_unknown [of k w res] by blast
  then show ?thesis
    by (simp add: NewBuildInfoFromOldString_def Split_Join parseLoop_blank parseLoop_key_value)
qed

theorem parse_line_processing_witness:
  "NewBuildInfoFromOldString (Join [''GitTag: a:b '', ''   '', '' Version: 1''] nl)
     = parseLoop [''GitTag: a:b '', ''   '', '' Version: 1''] zeroBuildInfo
   \<and> parseLoop [''   '', ''GitTag: a:b '', '' Version: 1''] zeroBuildInfo
     = parseLoop [''GitTag: a:b '', '' Version: 1''] zeroBuildInfo
   \<and> parseLoop [''GitTag: a:b '', '' Version: 1''] zeroBuildInfo
     = parseLoop ['' Version: 1''] (zeroBuildInfo\<lparr>GitTag := ''a:b''\<rparr>)
   \<and> parseLoop ['' Version: 1''] (zeroBuildInfo\<lparr>GitTag := ''a:b''\<rparr>)
     = (zeroBuildInfo\<lparr>GitTag := ''a:b''\<rparr>, None)"
proof -
  let ?z = "zeroBuildInfo\<lparr>GitTag := ''a:b''\<rparr>"
  have h1: "[''GitTag: a:b '', ''   '', '' Version: 1''] \<noteq> [] \<and>
      (\<forall>l \<in> set [''GitTag: a:b '', ''   '', '' Version: 1'']. nl \<notin> set l)"
    by code_simp
  have h2: "TrimSpace ''   '' = []"
    by code_simp
  have h3: "CHR '':'' \<notin> set ''GitTag''" "CHR '':'' \<notin> set '' Version''"
    by simp_all
  have h4: "TrimSpace '' Version'' \<noteq> '' Version''"
    by code_simp
  have t: "TrimSpace '' a:b '' = ''a:b''"
    by code_simp
  have a: "assignField ''GitTag'' ''a:b'' zeroBuildInfo = ?z"
    by (simp add: assignField_def)
  note A = parse_line_processing [of "[''GitTag: a:b '', ''   '', '' Version: 1'']" "''   ''"
      "[''GitTag: a:b '', '' Version: 1'']" zeroBuildInfo "[]" "[]" "[]"]
  note B = parse_line_processing [of "[]" "[]" "['' Version: 1'']" zeroBuildInfo
      "''GitTag''" "'' a:b ''" "[]"]
  note C = parse_line_processing [of "[]" "[]" "[]" ?z "'' Version''" "'' 1''" "TrimSpace '' 1''"]
  have 1: "NewBuildInfoFromOldString (Join [''GitTag: a:b '', ''   '', '' Version: 1''] nl)
     = parseLoop [''GitTag: a:b '', ''   '', '' Version: 1''] zeroBuildInfo"
    using A h1 by blast
  have 2: "parseLoop [''   '', ''GitTag: a:b '', '' Version: 1''] zeroBuildInfo
     = parseLoop [''GitTag: a:b '', '' Version: 1''] zeroBuildInfo"
    using A h2 by blast
  have "parseLoop [''GitTag'' @ CHR '':'' # '' a:b '', '' Version: 1''] zeroBuildInfo
     = parseLoop ['' Version: 1''] (assignField ''GitTag'' (TrimSpace '' a:b '') zeroBuildInfo)"
    using B h3 by blast
  then have 3: "parseLoop [''GitTag: a:b '', '' Version: 1''] zeroBuildInfo
     = parseLoop ['' Version: 1''] ?z"
    by (simp add: t a)
  have "parseLoop ['' Version'' @ CHR '':'' # '' 1''] ?z
     = parseLoop [] (assignField '' Version'' (TrimSpace '' 1'') ?z)"
    using C h3 by blast
  moreover have "assignField '' Version'' (TrimSpace '' 1'') ?z = ?z"
    using C h4 by blast
  ultimately have 4: "parseLoop ['' Version: 1''] ?z = (?z, None)"
    by simp
  show ?thesis
    using 1 2 3 4 by blast
qed



text \<open>
  C7. A text all of whose lines are blank, the empty text among them, gives
  the zero record and no error.
\<close>

theorem parse_blank_input:
  "\<forall>l \<in> set (Split oldOutput nl). TrimSpace l = [] \<Longrightarrow>
   NewBuildInfoFromOldString oldOutput = (zeroBuildInfo, None)"
  by (simp add: NewBuildInfoFromOldString_def parseLoop_blanks)

theorem parse_blank_input_witness:
  "NewBuildInfoFromOldString [] = (zeroBuildInfo, None) \<and>
   NewBuildInfoFromOldString [nl, nl, CHR '' '', CHR '' '', nl] = (zeroBuildInfo, None)"
proof -
  have h1: "\<forall>l \<in> set (Split [] nl). TrimSpace l = []"
    by code_simp
  have h2: "\<forall>l \<in> set (Split [nl, nl, CHR '' '', CHR '' '', nl] nl). TrimSpace l = []"
    by code_simp
  show ?thesis
    using parse_blank_input [OF h1] parse_blank_input [OF h2] by simp
qed

text \<open>
  C8. The legacy text does not bring back every record: the parser trims
  each value, so a version that starts with a space comes back without it.
\<close>

theorem legacy_roundtrip_loses_surrounding_space:
  "Version (fst (NewBuildInfoFromOldString
     (renderLegacy \<lparr>Version = '' 1.2.3'', GitRevision = ''abcd'', GolangVersion = ''go1.10'',
        BuildStatus = ''Clean'', GitTag = ''1.2.3'', Vendor = ''oss''\<rparr>)))
   \<noteq> Version \<lparr>Version = '' 1.2.3'', GitRevision = ''abcd'', GolangVersion = ''go1.10'',
        BuildStatus = ''Clean'', GitTag = ''1.2.3'', Vendor = ''oss''\<rparr>"
  by code_simp

text \<open>
  C8, as amended. For a record whose five recognized fields hold no newline
  and no white space at either end, parsing its legacy text gives back these
  five fields, with an empty vendor and no error; and there is a record that
  parsing its compact line does not give back.
\<close>

theorem legacy_roundtrip_trimmed_fields:
  assumes "\<forall>v \<in> set [Version b, GitRevision b, GolangVersion b, BuildStatus b, GitTag b].
             nl \<notin> set v \<and> TrimSpace v = v"
  shows "NewBuildInfoFromOldString (renderLegacy b) = (b\<lparr>Vendor := []\<rparr>, None)
         \<and> (\<exists>r. NewBuildInfoFromOldString (String r) \<noteq> (r, None))"
proof -
  define ls where "ls = [''Version: '' @ Version b, ''GitRevision: '' @ GitRevision b,
    ''GolangVersion: '' @ GolangVersion b, ''BuildStatus: '' @ BuildStatus b,
    ''GitTag: '' @ GitTag b, []]"
  have j: "renderLegacy b = Join ls nl"
    by (simp add: renderLegacy_def ls_def)
  have "\<forall>l \<in> set ls. nl \<notin> set l"
    using assms by (simp add: ls_def nl_def)
  then have sp: "Split (renderLegacy b) nl = ls"
    unfolding j by (intro Split_Join) (simp_all add: ls_def)
  have "parseLoop ls zeroBuildInfo =
      (zeroBuildInfo\<lparr>Version := TrimSpace (Version b), GitRevision := TrimSpace (GitRevision b),
         GolangVersion := TrimSpace (GolangVersion b), BuildStatus := TrimSpace (BuildStatus b),
         GitTag := TrimSpace (GitTag b)\<rparr>, None)"
    by (simp only: ls_def parseLoop_rendered parseLoop_blank [OF TrimSpace_Nil] parseLoop.simps(1))
  also have "\<dots> = (b\<lparr>Vendor := []\<rparr>, None)"
    using assms by (simp add: zeroBuildInfo_def)
  finally have "parseLoop ls zeroBuildInfo = (b\<lparr>Vendor := []\<rparr>, None)" .
  then have rt: "NewBuildInfoFromOldString (renderLegacy b) = (b\<lparr>Vendor := []\<rparr>, None)"
    by (simp add: NewBuildInfoFromOldString_def sp)
  have "snd (NewBuildInfoFromOldString (String zeroBuildInfo)) \<noteq> None"
    by code_simp
  then have "NewBuildInfoFromOldString (String zeroBuildInfo) \<noteq> (zeroBuildInfo, None)"
    by auto
  with rt show ?thesis by blast
qed

theorem legacy_roundtrip_trimmed_fields_witness:
  "NewBuildInfoFromOldString
     (renderLegacy \<lparr>Version = ''1.2.3'', GitRevision = ''abcd'', GolangVersion = ''go1.10'',
        BuildStatus = ''Clean'', GitTag = ''1.2.3-rc.1'', Vendor = ''oss''\<rparr>)
   = (\<lparr>Version = ''1.2.3'', GitRevision = ''abcd'', GolangVersion = ''go1.10'',
        BuildStatus = ''Clean'', GitTag = ''1.2.3-rc.1'', Vendor = []\<rparr>, None)"
proof -
  let ?b = "\<lparr>Version = ''1.2.3'', GitRevision = ''abcd'', GolangVersion = ''go1.10'',
        BuildStatus = ''Clean'', GitTag = ''1.2.3-rc.1'', Vendor = ''oss''\<rparr>"
  have h: "\<forall>v \<in> set [Version ?b, GitRevision ?b, GolangVersion ?b, BuildStatus ?b, GitTag ?b].
             nl \<notin> set v \<and> TrimSpace v = v"
    by code_simp
  show ?thesis
    using legacy_roundtrip_trimmed_fields [OF h] by simp
qed

text \<open>
  C9. In JSON the six fields appear under the names \<open>version\<close>,
  \<open>revision\<close>, \<open>golang_version\<close>, \<open>status\<close>, \<open>tag\<close> and \<open>vendor\<close>, in
  this order, and under no other name.
\<close>

theorem json_field_names:
  "jsonObject b =
     [(''version'', Version b), (''revision'', GitRevision b),
      (''golang_version'', GolangVersion b), (''status'', BuildStatus b),
      (''tag'', GitTag b), (''vendor'', Vendor b)]"
  by (simp add: jsonObject_def BuildInfoFields_def jsonName_def)

text \<open>
  C10. A line with a colon never stops the parse: the loop goes on with the
  record the field dispatch gives, and a text of this one line is parsed
  without error. A line whose key is not recognized, such as one that starts
  with the colon, leaves the record as it was: alone it gives the zero record
  and no error.
\<close>

theorem parse_line_with_colon_never_fails:
  assumes "CHR '':'' \<in> set line"
  shows "parseLoop (line # lines) res =
           parseLoop lines (assignField (keyOf line) (TrimSpace (rawValueOf line)) res)
         \<and> snd (parseLoop [line] res) = None
         \<and> (nl \<notin> set line \<longrightarrow> snd (NewBuildInfoFromOldString line) = None)
         \<and> (keyOf line \<notin> set recognizedKeys \<longrightarrow>
              parseLoop (line # lines) res = parseLoop lines res)
         \<and> parseLoop ((CHR '':'' # v) # lines) res = parseLoop lines res
         \<and> (nl \<notin> set v \<longrightarrow>
              NewBuildInfoFromOldString (CHR '':'' # v) = (zeroBuildInfo, None))"
proof -
  have c: "parseLoop ((CHR '':'' # v) # lines) res = parseLoop lines res" for lines res
    using parseLoop_key_value [of "[]" v lines res] by (simp add: assignField_def)
  have "nl \<notin> set v \<longrightarrow> Split (CHR '':'' # v) nl = [CHR '':'' # v]"
    by (simp add: Split_nosep nl_def)
  then have "nl \<notin> set v \<longrightarrow> NewBuildInfoFromOldString (CHR '':'' # v) = (zeroBuildInfo, None)"
    by (simp add: NewBuildInfoFromOldString_def c)
  then show ?thesis
    using assms
    by (simp add: c parseLoop_colon assignField_unknown NewBuildInfoFromOldString_def Split_nosep)
qed

theorem parse_line_with_colon_never_fails_witness:
  "parseLoop ['':value'', ''Version: 1''] zeroBuildInfo = parseLoop [''Version: 1''] zeroBuildInfo
   \<and> NewBuildInfoFromOldString '':value'' = (zeroBuildInfo, None)"
proof -
  have h: "CHR '':'' \<in> set '':value''"
    by simp
  have n: "nl \<notin> set ''value''"
    by code_simp
  have "parseLoop ((CHR '':'' # ''value'') # [''Version: 1'']) zeroBuildInfo
      = parseLoop [''Version: 1''] zeroBuildInfo
    \<and> NewBuildInfoFromOldString (CHR '':'' # ''value'') = (zeroBuildInfo, None)"
    using parse_line_with_colon_never_fails [OF h, of "[''Version: 1'']" zeroBuildInfo "''value''"] n
    by blast
  then show ?thesis
    by simp
qed

end
